theory Spec2Isabelle
  imports Main "HOL-Library.Sublist"
begin

section \<open>Strings\<close>

text \<open>
  JavaScript strings are modelled as \<^typ>\<open>string\<close>: one \<^typ>\<open>char\<close> per code unit, for
  the code units below 256. \<open>String.prototype.trim\<close> removes white space and line
  terminators from both ends; in that range they are TAB, LF, VT, FF, CR, SP and NBSP.
\<close>

definition is_ws :: "char \<Rightarrow> bool" where
  "is_ws c = (c \<in> set [CHR 0x09, CHR 0x0A, CHR 0x0B, CHR 0x0C, CHR 0x0D, CHR 0x20, CHR 0xA0])"

definition trim :: "string \<Rightarrow> string" where
  "trim s = rev (dropWhile is_ws (rev (dropWhile is_ws s)))"

text \<open>\<open>Array.prototype.join\<close>; a template literal renders an array with separator \<open>,\<close>.\<close>

fun join_with :: "string \<Rightarrow> string list \<Rightarrow> string" where
  "join_with sep [] = []"
| "join_with sep [s] = s"
| "join_with sep (s # t # ss) = s @ sep @ join_with sep (t # ss)"

definition array_toString :: "string list \<Rightarrow> string" where
  "array_toString xs = join_with '','' xs"

section \<open>Node's \<open>path\<close> module, POSIX flavour\<close>

text \<open>
  \<open>path.resolve\<close> and \<open>path.relative\<close> belong to the platform, not to the repository.
  They are modelled on path segments: \<open>resolve\<close> prepends arguments from the right until
  one is absolute (falling back on the working directory), then normalises, dropping empty
  and \<open>.\<close> segments and letting \<open>..\<close> remove the segment before it.
\<close>

fun split_path :: "string \<Rightarrow> string list" where
  "split_path [] = [[]]"
| "split_path (c # cs) =
     (if c = CHR ''/'' then [] # split_path cs
      else (case split_path cs of [] \<Rightarrow> [[c]] | s # ss \<Rightarrow> (c # s) # ss))"

definition is_absolute :: "string \<Rightarrow> bool" where
  "is_absolute p = (case p of [] \<Rightarrow> False | c # _ \<Rightarrow> c = CHR ''/'')"

text \<open>The second argument is the stack of segments kept so far, innermost first.\<close>

fun normalize_segs :: "bool \<Rightarrow> string list \<Rightarrow> string list \<Rightarrow> string list" where
  "normalize_segs allowAboveRoot st [] = rev st"
| "normalize_segs allowAboveRoot st (s # ss) =
     (if s = [] \<or> s = ''.'' then normalize_segs allowAboveRoot st ss
      else if s = ''..'' then
        (case st of
           [] \<Rightarrow> normalize_segs allowAboveRoot (if allowAboveRoot then [''..''] else []) ss
         | t # ts \<Rightarrow>
             if t = ''..'' then normalize_segs allowAboveRoot (''..'' # t # ts) ss
             else normalize_segs allowAboveRoot ts ss)
      else normalize_segs allowAboveRoot (s # st) ss)"

fun resolve_suffix :: "string list \<Rightarrow> string list" where
  "resolve_suffix [] = []"
| "resolve_suffix (p # ps) =
     (if list_ex is_absolute ps then resolve_suffix ps else p # ps)"

definition path_resolve :: "string \<Rightarrow> string list \<Rightarrow> string" where
  "path_resolve cwd args =
     (let used = filter (\<lambda>p. p \<noteq> []) (resolve_suffix (cwd # args));
          resolvedPath = concat (map (\<lambda>p. p @ ''/'') used);
          resolvedAbsolute = list_ex is_absolute used;
          norm = join_with ''/''
                   (normalize_segs (\<not> resolvedAbsolute) [] (split_path resolvedPath))
      in if resolvedAbsolute then ''/'' @ norm
         else if norm = [] then ''.'' else norm)"

text \<open>A segment that normalisation keeps as it is.\<close>

definition proper_segment :: "string \<Rightarrow> bool" where
  "proper_segment s = (s \<noteq> [] \<and> s \<noteq> ''.'' \<and> s \<noteq> ''..'' \<and> CHR ''/'' \<notin> set s)"

definition segments :: "string \<Rightarrow> string list" where
  "segments p = filter (\<lambda>s. s \<noteq> []) (split_path p)"

fun strip_common :: "string list \<Rightarrow> string list \<Rightarrow> string list \<times> string list" where
  "strip_common (a # as) (b # bs) =
     (if a = b then strip_common as bs else (a # as, b # bs))"
| "strip_common as bs = (as, bs)"

definition path_relative :: "string \<Rightarrow> string \<Rightarrow> string \<Rightarrow> string" where
  "path_relative cwd from to =
     (if from = to then []
      else
        (let f = path_resolve cwd [from]; t = path_resolve cwd [to]
         in if f = t then []
            else (case strip_common (segments f) (segments t) of
                    (fs, ts) \<Rightarrow> join_with ''/'' (replicate (length fs) ''..'' @ ts))))"

section \<open>The world the cache engine acts on\<close>

type_synonym path = string

text \<open>
  The file system maps the path of each existing file to its text. Directories are not
  modelled: \<open>writeFileSync\<close> creates or overwrites, and reading an existing file succeeds.
\<close>

type_synonym filesystem = "path \<rightharpoonup> string"

datatype error = Error string

datatype log_entry = Info string | Debug string | Warning string

text \<open>Calls that leave the engine, in the order they are made.\<close>

datatype call =
    RestoreCache "path list" string
  | SaveCache "path list" string
  | WriteFile path string
  | TryDelete path

record world =
  files :: filesystem
  trace :: "call list"
  messages :: "log_entry list"

text \<open>
  What \<open>cache-gradle-user-home.ts\<close> imports from \<open>cache-utils\<close> (\<open>getCacheKeyPrefix\<close>,
  \<open>hashFileNames\<close>, \<open>tryDelete\<close>, and \<open>restoreCache\<close> and \<open>saveCache\<close> of
  \<open>AbstractCache\<close>) and from the platform (\<open>glob\<close>, \<open>process.env\<close>, \<open>process.cwd\<close>,
  \<open>os.homedir\<close>) is not part of the sources at hand, so it is a parameter of the model.
  \<open>restoreCache\<close> answers with the matched key (or nothing) and the file system with the
  entry unpacked, or throws; \<open>saveCache\<close> returns or throws; \<open>deleteFails\<close> tells for
  which paths a deletion does not go through.
\<close>

record env =
  cacheKeyPrefix :: string
  hashFileNames :: "string list \<Rightarrow> string"
  glob :: "string \<Rightarrow> filesystem \<Rightarrow> path list"
  restoreCache :: "path list \<Rightarrow> string \<Rightarrow> filesystem \<Rightarrow> error + (string option \<times> filesystem)"
  saveCache :: "path list \<Rightarrow> string \<Rightarrow> filesystem \<Rightarrow> error option"
  deleteFails :: "path \<Rightarrow> bool"
  processEnv :: "string \<rightharpoonup> string"
  cwd :: path
  homedir :: path

text \<open>The fields of a \<open>GradleUserHomeCache\<close> instance that the engine reads.\<close>

record cache =
  gradleUserHome :: path
  cacheDebuggingEnabled :: bool

text \<open>
  Modelled from the spec: \<open>debug\<close> of \<open>AbstractCache\<close> is missing. Section 4.3 of the
  spec has outcomes logged at different verbosity, so a debug message is a log entry of
  a kind of its own, next to those of \<open>core.info\<close>.
\<close>

definition info :: "string \<Rightarrow> world \<Rightarrow> world" where
  "info msg w = w\<lparr>messages := messages w @ [Info msg]\<rparr>"

definition debug :: "string \<Rightarrow> world \<Rightarrow> world" where
  "debug msg w = w\<lparr>messages := messages w @ [Debug msg]\<rparr>"

definition called :: "call \<Rightarrow> world \<Rightarrow> world" where
  "called c w = w\<lparr>trace := trace w @ [c]\<rparr>"

definition existsSync :: "filesystem \<Rightarrow> path \<Rightarrow> bool" where
  "existsSync fs p = (fs p \<noteq> None)"

definition readFileSync :: "filesystem \<Rightarrow> path \<Rightarrow> error + string" where
  "readFileSync fs p = (case fs p of None \<Rightarrow> Inl (Error ''ENOENT'') | Some s \<Rightarrow> Inr s)"



text \<open>A JavaScript string is truthy when it is not empty; \<open>undefined\<close> is falsy.\<close>

definition truthy :: "string option \<Rightarrow> bool" where
  "truthy v = (case v of None \<Rightarrow> False | Some s \<Rightarrow> s \<noteq> [])"

section \<open>\<open>GradleUserHomeCache\<close>\<close>

definition determineGradleUserHome :: "env \<Rightarrow> path \<Rightarrow> path" where
  "determineGradleUserHome e rootDir =
     (case processEnv e ''GRADLE_USER_HOME'' of
        Some customGradleUserHome \<Rightarrow>
          if customGradleUserHome \<noteq> []
          then path_resolve (cwd e) [rootDir, customGradleUserHome]
          else path_resolve (cwd e) [homedir e, ''.gradle'']
      | None \<Rightarrow> path_resolve (cwd e) [homedir e, ''.gradle''])"

text \<open>
  The constructor. \<open>cacheDebuggingEnabled\<close> is set by the constructor of
  \<open>AbstractCache\<close>, from an input; it is an argument here.
\<close>

definition new_GradleUserHomeCache :: "env \<Rightarrow> path \<Rightarrow> bool \<Rightarrow> cache" where
  "new_GradleUserHomeCache e rootDir debugging =
     \<lparr>gradleUserHome = determineGradleUserHome e rootDir,
      cacheDebuggingEnabled = debugging\<rparr>"

definition getBundleMetaFile :: "cache \<Rightarrow> env \<Rightarrow> string \<Rightarrow> path" where
  "getBundleMetaFile c e name =
     path_resolve (cwd e)
       [gradleUserHome c, ''caches'', ''.gradle-build-action.'' @ name @ ''.cache'']"

definition createCacheKey :: "cache \<Rightarrow> env \<Rightarrow> string \<Rightarrow> path list \<Rightarrow> world \<Rightarrow> string \<times> world" where
  "createCacheKey c e bundle fls w =
     (let cacheKeyPrefix = cacheKeyPrefix e;
          relativeFiles = map (\<lambda>x. path_relative (cwd e) (gradleUserHome c) x) fls;
          key = hashFileNames e relativeFiles;
          w1 = debug (''Generating cache key for '' @ bundle @ '' from files: ''
                       @ array_toString relativeFiles) w
      in (cacheKeyPrefix @ bundle @ ''-'' @ key, w1))"

definition restoreArtifactBundle ::
  "cache \<Rightarrow> env \<Rightarrow> string \<Rightarrow> path \<Rightarrow> world \<Rightarrow> (error + unit) \<times> world" where
  "restoreArtifactBundle c e bundle artifactPath w =
     (let bundleMetaFile = getBundleMetaFile c e bundle
      in if existsSync (files w) bundleMetaFile then
           (case readFileSync (files w) bundleMetaFile of
              Inl err \<Rightarrow> (Inl err, w)
            | Inr content \<Rightarrow>
                (let cacheKey = trim content;
                     w1 = called (RestoreCache [artifactPath] cacheKey) w
                 in case restoreCache e [artifactPath] cacheKey (files w1) of
                      Inl err \<Rightarrow> (Inl err, w1)
                    | Inr (restoreKey, fs') \<Rightarrow>
                        (let w2 = w1\<lparr>files := fs'\<rparr>
                         in if truthy restoreKey
                            then (Inr (), info (''Restored '' @ bundle @ '' with key '' @ cacheKey
                                                 @ '' to '' @ artifactPath) w2)
                            else (Inr (), debug (''Did not restore '' @ bundle @ '' with key ''
                                                  @ cacheKey @ '' to '' @ artifactPath) w2))))
         else (Inr (), debug (''No metafile found to restore '' @ bundle @ '': ''
                               @ bundleMetaFile) w))"












fun restores :: "call list \<Rightarrow> (path list \<times> string) list" where
  "restores [] = []"
| "restores (RestoreCache ps key # cs) = (ps, key) # restores cs"
| "restores (x # cs) = restores cs"

section \<open>\<open>caches.ts\<close>: the entry points of an action step\<close>

text \<open>
  \<open>process.env\<close> holds the variables of the job; \<open>core.exportVariable\<close> sets one for
  the running step and every later one. \<open>core.saveState\<close> hands a value from the main
  part of a step to its own post part, where \<open>core.getState\<close> reads it; a name never
  saved reads as the empty string.
\<close>

datatype effect =
    CoreInfo string
  | StartGroup string
  | EndGroup
  | GradleStateRestore path
  | GradleStateSave path string
  | CachingReport string

record job =
  environment :: "string \<rightharpoonup> string"
  state :: "string \<rightharpoonup> string"
  effects :: "effect list"

text \<open>
  \<open>isCacheDisabled\<close> and \<open>isCacheReadOnly\<close> (of \<open>cache-utils\<close>), \<open>GradleStateCache\<close> (of
  \<open>cache-base\<close>) and \<open>CacheListener\<close> (of \<open>cache-reporting\<close>) are parameters. A listener
  is kept in its serialised form: \<open>stateRestore\<close> gives the listener as it stands after
  the restore, \<open>stateSave\<close> the one after the save, and either may throw.
\<close>

record collaborators =
  isCacheDisabled :: bool
  isCacheReadOnly :: bool
  stateRestore :: "path \<Rightarrow> error + string"
  stateSave :: "path \<Rightarrow> string \<Rightarrow> error + string"

definition CACHE_RESTORED_VAR :: string where
  "CACHE_RESTORED_VAR = ''GRADLE_BUILD_ACTION_CACHE_RESTORED''"

definition GRADLE_USER_HOME :: string where
  "GRADLE_USER_HOME = ''GRADLE_USER_HOME''"

definition CACHE_LISTENER :: string where
  "CACHE_LISTENER = ''CACHE_LISTENER''"

definition did :: "effect \<Rightarrow> job \<Rightarrow> job" where
  "did x j = j\<lparr>effects := effects j @ [x]\<rparr>"

definition saveState :: "string \<Rightarrow> string \<Rightarrow> job \<Rightarrow> job" where
  "saveState name v j = j\<lparr>state := (state j)(name \<mapsto> v)\<rparr>"

definition getState :: "job \<Rightarrow> string \<Rightarrow> string" where
  "getState j name = (case state j name of None \<Rightarrow> [] | Some v \<Rightarrow> v)"

definition exportVariable :: "string \<Rightarrow> string \<Rightarrow> job \<Rightarrow> job" where
  "exportVariable name v j = j\<lparr>environment := (environment j)(name \<mapsto> v)\<rparr>"

definition shouldRestoreCaches :: "collaborators \<Rightarrow> job \<Rightarrow> bool \<times> job" where
  "shouldRestoreCaches k j =
     (if isCacheDisabled k
      then (False, did (CoreInfo ''Cache is disabled: will not restore state from previous builds.'') j)
      else if truthy (environment j CACHE_RESTORED_VAR)
      then (False, did (CoreInfo ''Cache only restored on first action step.'') j)
      else (True, j))"

definition shouldSaveCaches :: "collaborators \<Rightarrow> job \<Rightarrow> bool \<times> job" where
  "shouldSaveCaches k j =
     (if isCacheDisabled k
      then (False, did (CoreInfo ''Cache is disabled: will not save state for later builds.'') j)
      else if \<not> truthy (Some (getState j CACHE_RESTORED_VAR))
      then (False, did (CoreInfo ''Cache will only be saved in final post-action step.'') j)
      else (True, j))"

text \<open>\<open>core.group\<close> closes the group in a \<open>finally\<close> block, also when its body throws.\<close>

definition restore :: "collaborators \<Rightarrow> path \<Rightarrow> job \<Rightarrow> (error + unit) \<times> job" where
  "restore k gradleUserHome' j =
     (case shouldRestoreCaches k j of
        (False, j1) \<Rightarrow> (Inr (), j1)
      | (True, j1) \<Rightarrow>
          (let j2 = saveState GRADLE_USER_HOME gradleUserHome'
                      (did (StartGroup ''Restore Gradle state from cache'') j1);
               j3 = did (GradleStateRestore gradleUserHome') j2
           in case stateRestore k gradleUserHome' of
                Inl err \<Rightarrow> (Inl err, did EndGroup j3)
              | Inr cacheListener \<Rightarrow>
                  (Inr (),
                   saveState CACHE_RESTORED_VAR ''true''
                     (exportVariable CACHE_RESTORED_VAR ''true''
                        (did EndGroup (saveState CACHE_LISTENER cacheListener j3))))))"

definition save :: "collaborators \<Rightarrow> job \<Rightarrow> (error + unit) \<times> job" where
  "save k j =
     (case shouldSaveCaches k j of
        (False, j1) \<Rightarrow> (Inr (), j1)
      | (True, j1) \<Rightarrow>
          (let cacheListener = getState j1 CACHE_LISTENER
           in if isCacheReadOnly k then
                (Inr (),
                 did (CachingReport cacheListener)
                   (did (CoreInfo ''Cache is read-only: will not save state for use in subsequent builds.'')
                      j1))
              else
                (let gradleUserHome' = getState j1 GRADLE_USER_HOME;
                     j2 = did (GradleStateSave gradleUserHome' cacheListener)
                            (did (StartGroup ''Caching Gradle state'') j1)
                 in case stateSave k gradleUserHome' cacheListener of
                      Inl err \<Rightarrow> (Inl err, did EndGroup j2)
                    | Inr cacheListener' \<Rightarrow>
                        (Inr (), did (CachingReport cacheListener') (did EndGroup j2)))))"

text \<open>What the effects of an action step say about restores and saves of the Gradle state.\<close>

fun stateRestores :: "effect list \<Rightarrow> path list" where
  "stateRestores [] = []"
| "stateRestores (GradleStateRestore h # xs) = h # stateRestores xs"
| "stateRestores (x # xs) = stateRestores xs"

fun stateSaves :: "effect list \<Rightarrow> (path \<times> string) list" where
  "stateSaves [] = []"
| "stateSaves (GradleStateSave h l # xs) = (h, l) # stateSaves xs"
| "stateSaves (x # xs) = stateSaves xs"

section \<open>A scenario: the \<open>wrapper-dists\<close> bundle\<close>

text \<open>
  Gradle User Home is \<open>/home/u/.gradle\<close>; the bundle \<open>wrapper-dists\<close> matches a
  distribution and its marker file. The hash is a stand-in that joins the names.
\<close>

definition ex_zip :: path where
  "ex_zip = ''/home/u/.gradle/wrapper/dists/gradle-8.1-bin.zip''"

definition ex_ok :: path where
  "ex_ok = ''/home/u/.gradle/wrapper/dists/gradle-8.1-bin.zip.ok''"

definition ex_pattern :: path where
  "ex_pattern = ''/home/u/.gradle/wrapper/dists/*''"

definition ex_glob :: "string \<Rightarrow> filesystem \<Rightarrow> path list" where
  "ex_glob pattern fs =
     (if pattern = ex_pattern then filter (\<lambda>p. fs p \<noteq> None) [ex_zip, ex_ok] else [])"

definition ex_restoreCache ::
  "path list \<Rightarrow> string \<Rightarrow> filesystem \<Rightarrow> error + (string option \<times> filesystem)" where
  "ex_restoreCache ps key fs =
     (if CHR '','' \<in> set key then Inl (Error ''Key Validation Error: cannot contain commas.'')
      else Inr (None, fs))"

definition ex_env :: env where
  "ex_env = \<lparr>cacheKeyPrefix = ''v1-'', hashFileNames = join_with ''+'', glob = ex_glob,
     restoreCache = ex_restoreCache, saveCache = (\<lambda>ps key fs. None),
     deleteFails = (\<lambda>p. False), processEnv = Map.empty, cwd = ''/work'',
     homedir = ''/home/u''\<rparr>"

definition ex_cache :: cache where
  "ex_cache = new_GradleUserHomeCache ex_env ''/work'' True"

definition ex_meta :: path where
  "ex_meta = ''/home/u/.gradle/caches/.gradle-build-action.wrapper-dists.cache''"

definition ex_key :: string where
  "ex_key = ''v1-wrapper-dists-wrapper/dists/gradle-8.1-bin.zip+wrapper/dists/gradle-8.1-bin.zip.ok''"

definition ex_world :: world where
  "ex_world = \<lparr>files = [ex_zip \<mapsto> ''PK'', ex_ok \<mapsto> ''''], trace = [], messages = []\<rparr>"

text \<open>The same files with the meta-file of an earlier save, which gained a line feed.\<close>

definition ex_cached :: world where
  "ex_cached = ex_world\<lparr>files := (files ex_world)(ex_meta \<mapsto> ex_key @ [CHR 0x0A])\<rparr>"



definition cx_meta :: path where "cx_meta = ''/home/u/.gradle/caches/.gradle-build-action.all.cache''"


definition cx_env :: env where
  "cx_env = ex_env\<lparr>glob := (\<lambda>pattern fs. filter (\<lambda>p. fs p \<noteq> None) [cx_meta])\<rparr>"





text \<open>An action step with caching enabled, before anything ran.\<close>

definition ex_collaborators :: collaborators where
  "ex_collaborators = \<lparr>isCacheDisabled = False, isCacheReadOnly = False,
     stateRestore = (\<lambda>h. Inr ''{}''), stateSave = (\<lambda>h l. Inr l)\<rparr>"

definition ex_job :: job where
  "ex_job = \<lparr>environment = Map.empty, state = Map.empty, effects = []\<rparr>"

section \<open>Traces\<close>





lemma stateRestores_append: "stateRestores (xs @ ys) = stateRestores xs @ stateRestores ys"
  by (induction xs rule: stateRestores.induct) simp_all

lemma stateSaves_append: "stateSaves (xs @ ys) = stateSaves xs @ stateSaves ys"
  by (induction xs rule: stateSaves.induct) simp_all













lemma fst_createCacheKey:
  "fst (createCacheKey c e b fls w) =
     cacheKeyPrefix e @ b @ ''-''
       @ hashFileNames e (map (path_relative (cwd e) (gradleUserHome c)) fls)"
  by (simp add: createCacheKey_def Let_def)


section \<open>Trimming\<close>





section \<open>Resolving paths\<close>

lemma split_path_nonempty: "split_path s \<noteq> []"
  by (induction s) (simp_all split: list.splits)

lemma split_path_append:
  "split_path (a @ CHR ''/'' # b) = split_path a @ split_path b"
proof (induction a)
  case Nil
  then show ?case by simp
next
  case (Cons c a)
  then show ?case
    using split_path_nonempty [of a] by (cases "split_path a") simp_all
qed

lemma split_path_no_slash: "CHR ''/'' \<notin> set s \<Longrightarrow> split_path s = [s]"
  by (induction s) auto

lemma normalize_segs_append:
  "normalize_segs a st (xs @ ys) = normalize_segs a (rev (normalize_segs a st xs)) ys"
  by (induction a st xs rule: normalize_segs.induct) (auto split: list.splits)


lemma resolve_absolute:
  assumes "is_absolute p"
  shows "path_resolve d [p] = ''/'' @ join_with ''/'' (normalize_segs False [] (split_path p))"
proof -
  have ne: "p \<noteq> []" using assms by (auto simp: is_absolute_def)
  have "split_path (p @ ''/'') = split_path p @ [[]]"
    using split_path_append [of p "[]"] by simp
  then have "normalize_segs False [] (split_path (p @ ''/''))
      = normalize_segs False [] (split_path p)"
    by (simp add: normalize_segs_append)
  then show ?thesis
    using assms ne by (simp add: path_resolve_def Let_def)
qed




lemma split_path_slash_free: "s \<in> set (split_path p) \<Longrightarrow> CHR ''/'' \<notin> set s"
proof (induction p arbitrary: s)
  case Nil
  then show ?case by simp
next
  case (Cons c p)
  then show ?case
    using split_path_nonempty [of p]
    by (cases "split_path p") (auto split: if_splits)
qed

lemma normalize_segs_elems:
  "s \<in> set (normalize_segs False st xs) \<Longrightarrow>
     s \<in> set st \<or> (s \<in> set xs \<and> s \<noteq> [] \<and> s \<noteq> ''.'' \<and> s \<noteq> ''..'')"
  by (induction False st xs rule: normalize_segs.induct)
    (auto split: if_splits list.splits)

lemma normalize_segs_proper:
  "list_all proper_segment (normalize_segs False [] (split_path p))"
  unfolding list_all_iff proper_segment_def
  using normalize_segs_elems [of _ "[]" "split_path p"] split_path_slash_free [of _ p]
  by auto

lemma normalize_segs_id:
  "list_all proper_segment xs \<Longrightarrow> normalize_segs False st xs = rev st @ xs"
  by (induction xs arbitrary: st) (simp_all add: proper_segment_def)

lemma split_path_join:
  "xs \<noteq> [] \<Longrightarrow> list_all proper_segment xs \<Longrightarrow> split_path (join_with ''/'' xs) = xs"
proof (induction "''/''" xs rule: join_with.induct)
  case 1
  then show ?case by simp
next
  case (2 s)
  then show ?case by (simp add: split_path_no_slash proper_segment_def)
next
  case (3 s t ss)
  then show ?case
    using split_path_append [of s "join_with ''/'' (t # ss)"]
    by (simp add: split_path_no_slash proper_segment_def)
qed

lemma normal_form_fixed:
  assumes "list_all proper_segment xs"
  shows "path_resolve d [''/'' @ join_with ''/'' xs] = ''/'' @ join_with ''/'' xs"
proof -
  have abs: "is_absolute (''/'' @ join_with ''/'' xs)"
    by (simp add: is_absolute_def)
  have "normalize_segs False [] (split_path (''/'' @ join_with ''/'' xs)) = xs"
  proof (cases "xs = []")
    case True
    then show ?thesis by simp
  next
    case False
    then have "split_path (''/'' @ join_with ''/'' xs) = [] # xs"
      using split_path_join [OF False assms] by simp
    then show ?thesis
      using assms by (simp add: normalize_segs_id)
  qed
  then show ?thesis
    using resolve_absolute [OF abs, of d] by simp
qed

lemma resolve_suffix_absolute:
  "list_ex is_absolute ps \<Longrightarrow> list_ex is_absolute (filter (\<lambda>p. p \<noteq> []) (resolve_suffix ps))"
proof (induction ps)
  case Nil
  then show ?case by simp
next
  case (Cons p ps)
  then show ?case
    by (auto simp: is_absolute_def list_ex_iff split: list.splits)
qed

lemma resolve_normal_form:
  assumes "is_absolute d"
  shows "\<exists>xs. list_all proper_segment xs \<and> path_resolve d args = ''/'' @ join_with ''/'' xs"
proof -
  have "list_ex is_absolute (filter (\<lambda>p. p \<noteq> []) (resolve_suffix (d # args)))"
    using assms by (intro resolve_suffix_absolute) simp
  then have "path_resolve d args = ''/'' @ join_with ''/''
      (normalize_segs False []
         (split_path (concat (map (\<lambda>p. p @ ''/'')
            (filter (\<lambda>p. p \<noteq> []) (resolve_suffix (d # args)))))))"
    by (simp add: path_resolve_def Let_def)
  then show ?thesis
    using normalize_segs_proper by metis
qed

lemma resolve_idempotent:
  assumes "is_absolute d"
  shows "path_resolve d' [path_resolve d args] = path_resolve d args"
    and "is_absolute (path_resolve d args)"
proof -
  obtain xs where xs: "list_all proper_segment xs"
    and r: "path_resolve d args = ''/'' @ join_with ''/'' xs"
    using resolve_normal_form [OF assms] by blast
  show "path_resolve d' [path_resolve d args] = path_resolve d args"
    unfolding r using xs by (rule normal_form_fixed)
  show "is_absolute (path_resolve d args)"
    unfolding r by (simp add: is_absolute_def)
qed

lemma determineGradleUserHome_normal:
  assumes "is_absolute (cwd e)"
  shows "path_resolve d [determineGradleUserHome e rootDir] = determineGradleUserHome e rootDir"
    and "is_absolute (determineGradleUserHome e rootDir)"
  using resolve_idempotent [OF assms]
  by (simp_all add: determineGradleUserHome_def split: option.splits)

lemma strip_common_prefix: "strip_common xs (xs @ ys) = ([], ys)"
  by (induction xs) simp_all

lemma segments_normal_form:
  assumes "list_all proper_segment xs"
  shows "segments (''/'' @ join_with ''/'' xs) = xs"
proof (cases "xs = []")
  case True
  then show ?thesis by (simp add: segments_def)
next
  case False
  have "filter (\<lambda>s. s \<noteq> []) xs = xs"
    using assms by (simp add: list_all_iff proper_segment_def)
  then show ?thesis
    using split_path_join [OF False assms] by (simp add: segments_def)
qed

lemma join_with_append:
  "xs \<noteq> [] \<Longrightarrow> ys \<noteq> [] \<Longrightarrow>
     join_with sep (xs @ ys) = join_with sep xs @ sep @ join_with sep ys"
  by (induction sep xs rule: join_with.induct) (simp_all, (cases ys; simp))

lemma relative_below:
  assumes abs: "is_absolute home"
    and norm: "path_resolve d [home] = home"
    and root: "home \<noteq> ''/''"
    and rel: "rel \<noteq> []" "list_all proper_segment rel"
  shows "path_relative d home (home @ ''/'' @ join_with ''/'' rel) = join_with ''/'' rel"
proof -
  define xs where "xs = normalize_segs False [] (split_path home)"
  have home: "home = ''/'' @ join_with ''/'' xs"
    using resolve_absolute [OF abs, of d] norm by (simp add: xs_def)
  have xs: "list_all proper_segment xs"
    unfolding xs_def by (rule normalize_segs_proper)
  have ne: "xs \<noteq> []"
    using home root by auto
  define target where "target = home @ ''/'' @ join_with ''/'' rel"
  have target: "target = ''/'' @ join_with ''/'' (xs @ rel)"
    using home join_with_append [OF ne rel(1), of "''/''"] by (simp add: target_def)
  have all: "list_all proper_segment (xs @ rel)"
    using xs rel(2) by simp
  have "join_with ''/'' rel \<noteq> []"
  proof (cases rel)
    case Nil
    with rel(1) show ?thesis by simp
  next
    case (Cons r rs)
    with rel(2) have "r \<noteq> []" by (simp add: proper_segment_def)
    with Cons show ?thesis by (cases rs) simp_all
  qed
  then have diff: "home \<noteq> target"
    by (simp add: target_def)
  have f: "path_resolve d [target] = target"
    unfolding target using all by (rule normal_form_fixed)
  have "segments home = xs" "segments target = xs @ rel"
    using segments_normal_form [OF xs] segments_normal_form [OF all] home target by simp_all
  then have "strip_common (segments home) (segments target) = ([], rel)"
    by (simp add: strip_common_prefix)
  then have "path_relative d home target = join_with ''/'' rel"
    using diff norm f by (simp add: path_relative_def Let_def)
  then show ?thesis
    by (simp add: target_def)
qed

section \<open>The two branches of \<open>saveArtifactBundle\<close>\<close>





section \<open>The batch\<close>




section \<open>The entry points\<close>

lemma restore_noop:
  assumes "truthy (environment j CACHE_RESTORED_VAR)"
  shows "restore k home j =
     (Inr (), did (CoreInfo (if isCacheDisabled k
        then ''Cache is disabled: will not restore state from previous builds.''
        else ''Cache only restored on first action step.'')) j)"
  using assms by (simp add: restore_def shouldRestoreCaches_def)

lemma save_noop:
  assumes "\<not> truthy (Some (getState j CACHE_RESTORED_VAR))"
  shows "save k j =
     (Inr (), did (CoreInfo (if isCacheDisabled k
        then ''Cache is disabled: will not save state for later builds.''
        else ''Cache will only be saved in final post-action step.'')) j)"
  using assms by (simp add: save_def shouldSaveCaches_def)

lemma var_names_distinct:
  "CACHE_RESTORED_VAR \<noteq> GRADLE_USER_HOME" "CACHE_RESTORED_VAR \<noteq> CACHE_LISTENER"
  "GRADLE_USER_HOME \<noteq> CACHE_LISTENER"
  by (simp_all add: CACHE_RESTORED_VAR_def GRADLE_USER_HOME_def CACHE_LISTENER_def)

lemma restore_cases:
  "restore k home j =
     (if isCacheDisabled k \<or> truthy (environment j CACHE_RESTORED_VAR)
      then (Inr (), did (CoreInfo (if isCacheDisabled k
              then ''Cache is disabled: will not restore state from previous builds.''
              else ''Cache only restored on first action step.'')) j)
      else case stateRestore k home of
             Inl err \<Rightarrow>
               (Inl err,
                j\<lparr>state := (state j)(GRADLE_USER_HOME \<mapsto> home),
                   effects := effects j @ [StartGroup ''Restore Gradle state from cache'',
                                           GradleStateRestore home, EndGroup]\<rparr>)
           | Inr l \<Rightarrow>
               (Inr (),
                j\<lparr>environment := (environment j)(CACHE_RESTORED_VAR \<mapsto> ''true''),
                   state := (state j)(GRADLE_USER_HOME \<mapsto> home, CACHE_LISTENER \<mapsto> l,
                                      CACHE_RESTORED_VAR \<mapsto> ''true''),
                   effects := effects j @ [StartGroup ''Restore Gradle state from cache'',
                                           GradleStateRestore home, EndGroup]\<rparr>))"
  by (simp add: restore_def shouldRestoreCaches_def Let_def did_def saveState_def
      exportVariable_def split: sum.splits)

lemma restore_then_noop:
  assumes "fst (restore k home j) = Inr ()"
    and "stateRestores (effects (snd (restore k home j))) \<noteq> stateRestores (effects j)"
  shows "truthy (environment (snd (restore k home j)) CACHE_RESTORED_VAR)"
  using assms
  by (auto simp add: restore_cases did_def stateRestores_append truthy_def
      split: if_splits sum.splits)

lemma save_executes:
  assumes "stateSaves (effects (snd (save k j))) \<noteq> stateSaves (effects j)"
  shows "truthy (Some (getState j CACHE_RESTORED_VAR))"
proof (rule ccontr)
  assume "\<not> truthy (Some (getState j CACHE_RESTORED_VAR))"
  then have "stateSaves (effects (snd (save k j))) = stateSaves (effects j)"
    by (simp add: save_noop did_def stateSaves_append)
  with assms show False by simp
qed

lemma restore_recorded:
  assumes "state j = Map.empty"
    and "truthy (Some (getState (j'\<lparr>state := state (snd (restore k home j))\<rparr>) CACHE_RESTORED_VAR))"
  shows "fst (restore k home j) = Inr ()
    \<and> stateRestores (effects (snd (restore k home j))) = stateRestores (effects j) @ [home]"
  using assms var_names_distinct
  by (auto simp add: restore_cases did_def stateRestores_append truthy_def getState_def
      split: if_splits sum.splits)

section \<open>The scenario, evaluated\<close>

lemma ex_env_fields:
  "cacheKeyPrefix ex_env = ''v1-''" "hashFileNames ex_env = join_with ''+''"
  "glob ex_env = ex_glob" "restoreCache ex_env = ex_restoreCache"
  "saveCache ex_env = (\<lambda>ps key fs. None)" "deleteFails ex_env = (\<lambda>p. False)"
  "processEnv ex_env = Map.empty" "cwd ex_env = ''/work''" "homedir ex_env = ''/home/u''"
  by (simp_all add: ex_env_def)

lemma ex_home: "gradleUserHome ex_cache = ''/home/u/.gradle''"
  by (simp add: ex_cache_def new_GradleUserHomeCache_def ex_env_def determineGradleUserHome_def
      truthy_def path_resolve_def is_absolute_def)

lemma ex_getBundleMetaFile: "getBundleMetaFile ex_cache ex_env ''wrapper-dists'' = ex_meta"
  by (simp add: getBundleMetaFile_def ex_home ex_meta_def path_resolve_def is_absolute_def ex_env_def)


lemma ex_relative:
  "map (path_relative (cwd ex_env) (gradleUserHome ex_cache)) [ex_zip, ex_ok]
     = [''wrapper/dists/gradle-8.1-bin.zip'', ''wrapper/dists/gradle-8.1-bin.zip.ok'']"
  by (simp add: ex_home ex_env_def ex_zip_def ex_ok_def path_relative_def path_resolve_def
      is_absolute_def segments_def)

lemma ex_createCacheKey:
  "fst (createCacheKey ex_cache ex_env ''wrapper-dists'' [ex_zip, ex_ok] w) = ex_key"
  unfolding fst_createCacheKey ex_relative by (simp add: ex_env_def ex_key_def)

lemma ex_paths_distinct: "ex_meta \<noteq> ex_zip" "ex_meta \<noteq> ex_ok" "ex_zip \<noteq> ex_ok"
  by (simp_all add: ex_meta_def ex_zip_def ex_ok_def)












section \<open>The claims\<close>

subsection \<open>C1: an unchanged key skips the upload\<close>




subsection \<open>C2: matched files are deleted in both branches\<close>



subsection \<open>C3: the form of a cache key\<close>

lemma createCacheKey_below_home:
  assumes "is_absolute (cwd e)"
    and "gradleUserHome c = determineGradleUserHome e rootDir"
    and "gradleUserHome c \<noteq> ''/''"
    and "list_all (\<lambda>rel. rel \<noteq> [] \<and> list_all proper_segment rel) rels"
  shows "fst (createCacheKey c e b
               (map (\<lambda>rel. gradleUserHome c @ ''/'' @ join_with ''/'' rel) rels) w)
           = cacheKeyPrefix e @ b @ ''-'' @ hashFileNames e (map (join_with ''/'') rels)"
proof -
  have n: "path_resolve (cwd e) [gradleUserHome c] = gradleUserHome c"
    and a: "is_absolute (gradleUserHome c)"
    using determineGradleUserHome_normal [OF assms(1)] assms(2) by simp_all
  have m: "map (path_relative (cwd e) (gradleUserHome c))
          (map (\<lambda>rel. gradleUserHome c @ ''/'' @ join_with ''/'' rel) rels)
        = map (join_with ''/'') rels"
    using assms(4) relative_below [OF a n assms(3)]
    by (induction rels) simp_all
  show ?thesis
    unfolding fst_createCacheKey m by (rule refl)
qed

text \<open>
  C3. \<open>createCacheKey\<close> returns the prefix, the bundle name, a hyphen and the hash, in
  this order, where the hash is taken of the matched paths made relative to Gradle User
  Home and of nothing else: in any other world (other file contents, other log) the key
  is the same, and for files below Gradle User Home the names that are hashed are the
  paths below it.
\<close>

theorem createCacheKey_form:
  "fst (createCacheKey c e bundle fls w) =
     cacheKeyPrefix e @ bundle @ ''-''
       @ hashFileNames e (map (path_relative (cwd e) (gradleUserHome c)) fls)
   \<and> fst (createCacheKey c e bundle fls w') = fst (createCacheKey c e bundle fls w)
   \<and> (is_absolute (cwd e)
      \<and> determineGradleUserHome e rootDir \<noteq> ''/''
      \<and> list_all (\<lambda>rel. rel \<noteq> [] \<and> list_all proper_segment rel) rels
    \<longrightarrow> fst (createCacheKey (new_GradleUserHomeCache e rootDir debugging) e bundle
               (map (\<lambda>rel. determineGradleUserHome e rootDir @ ''/'' @ join_with ''/'' rel) rels)
               w)
          = cacheKeyPrefix e @ bundle @ ''-'' @ hashFileNames e (map (join_with ''/'') rels))"
proof (intro conjI impI)
  show "fst (createCacheKey c e bundle fls w) =
     cacheKeyPrefix e @ bundle @ ''-''
       @ hashFileNames e (map (path_relative (cwd e) (gradleUserHome c)) fls)"
    by (rule fst_createCacheKey)
  show "fst (createCacheKey c e bundle fls w') = fst (createCacheKey c e bundle fls w)"
    by (simp add: fst_createCacheKey)
next
  assume a: "is_absolute (cwd e)
      \<and> determineGradleUserHome e rootDir \<noteq> ''/''
      \<and> list_all (\<lambda>rel. rel \<noteq> [] \<and> list_all proper_segment rel) rels"
  have h: "gradleUserHome (new_GradleUserHomeCache e rootDir debugging)
      = determineGradleUserHome e rootDir"
    by (simp add: new_GradleUserHomeCache_def)
  show "fst (createCacheKey (new_GradleUserHomeCache e rootDir debugging) e bundle
               (map (\<lambda>rel. determineGradleUserHome e rootDir @ ''/'' @ join_with ''/'' rel) rels)
               w)
          = cacheKeyPrefix e @ bundle @ ''-'' @ hashFileNames e (map (join_with ''/'') rels)"
    using createCacheKey_below_home
      [of e "new_GradleUserHomeCache e rootDir debugging" rootDir rels "bundle" w] a
    unfolding h by simp
qed

theorem createCacheKey_form_witness:
  "is_absolute (cwd ex_env)
   \<and> determineGradleUserHome ex_env ''/work'' = ''/home/u/.gradle''
   \<and> list_all (\<lambda>rel. rel \<noteq> [] \<and> list_all proper_segment rel)
        [[''wrapper'', ''dists'', ''gradle-8.1-bin.zip''],
         [''wrapper'', ''dists'', ''gradle-8.1-bin.zip.ok'']]
   \<and> fst (createCacheKey ex_cache ex_env ''wrapper-dists'' [ex_zip, ex_ok] ex_world)
       = ''v1-'' @ ''wrapper-dists'' @ ''-''
           @ join_with ''+'' [''wrapper/dists/gradle-8.1-bin.zip'',
                              ''wrapper/dists/gradle-8.1-bin.zip.ok'']
   \<and> fst (createCacheKey ex_cache ex_env ''wrapper-dists'' [ex_zip, ex_ok] ex_cached)
       = fst (createCacheKey ex_cache ex_env ''wrapper-dists'' [ex_zip, ex_ok] ex_world)"
proof -
  have 1: "is_absolute (cwd ex_env)"
    by (simp add: ex_env_fields is_absolute_def)
  have 2: "determineGradleUserHome ex_env ''/work'' = ''/home/u/.gradle''"
    using ex_home by (simp add: ex_cache_def new_GradleUserHomeCache_def)
  have 3: "list_all (\<lambda>rel. rel \<noteq> [] \<and> list_all proper_segment rel)
        [[''wrapper'', ''dists'', ''gradle-8.1-bin.zip''],
         [''wrapper'', ''dists'', ''gradle-8.1-bin.zip.ok'']]"
    by (simp add: proper_segment_def)
  have 4: "map (\<lambda>rel. ''/home/u/.gradle'' @ ''/'' @ join_with ''/'' rel)
        [[''wrapper'', ''dists'', ''gradle-8.1-bin.zip''],
         [''wrapper'', ''dists'', ''gradle-8.1-bin.zip.ok'']] = [ex_zip, ex_ok]"
    by (simp add: ex_zip_def ex_ok_def)
  have 5: "map (join_with ''/'')
        [[''wrapper'', ''dists'', ''gradle-8.1-bin.zip''],
         [''wrapper'', ''dists'', ''gradle-8.1-bin.zip.ok'']]
      = [''wrapper/dists/gradle-8.1-bin.zip'', ''wrapper/dists/gradle-8.1-bin.zip.ok'']"
    by simp
  note t = createCacheKey_form
    [where e = ex_env and rootDir = "''/work''" and debugging = True
       and rels = "[[''wrapper'', ''dists'', ''gradle-8.1-bin.zip''],
                    [''wrapper'', ''dists'', ''gradle-8.1-bin.zip.ok'']]"
       and c = ex_cache and fls = "[ex_zip, ex_ok]" and w = ex_world and w' = ex_cached]
  have "fst (createCacheKey ex_cache ex_env ''wrapper-dists'' [ex_zip, ex_ok] ex_world)
       = ''v1-'' @ ''wrapper-dists'' @ ''-''
           @ join_with ''+'' [''wrapper/dists/gradle-8.1-bin.zip'',
                              ''wrapper/dists/gradle-8.1-bin.zip.ok'']"
    using t [of "''wrapper-dists''"] 1 3
    unfolding 2 4 5 ex_cache_def [symmetric] ex_env_fields by blast
  moreover have "fst (createCacheKey ex_cache ex_env ''wrapper-dists'' [ex_zip, ex_ok] ex_cached)
       = fst (createCacheKey ex_cache ex_env ''wrapper-dists'' [ex_zip, ex_ok] ex_world)"
    using t [of "''wrapper-dists''"] by blast
  ultimately show ?thesis
    using 1 2 3 by blast
qed

subsection \<open>C4: a failing bundle in a batch of restores\<close>




subsection \<open>C5: a bundle that matches no file\<close>



subsection \<open>C6: restoring without a meta-file\<close>

text \<open>
  C6. For a bundle whose meta-file does not exist, \<open>restoreArtifactBundle\<close> returns
  without error, reports that no meta-file was found, makes no call to \<open>restoreCache\<close>
  and leaves the files as they were.
\<close>

theorem restoreArtifactBundle_no_metafile:
  assumes "\<not> existsSync (files w) (getBundleMetaFile c e bundle)"
  shows "restoreArtifactBundle c e bundle artifactPath w =
           (Inr (), debug (''No metafile found to restore '' @ bundle @ '': ''
                            @ getBundleMetaFile c e bundle) w)
         \<and> restores (trace (snd (restoreArtifactBundle c e bundle artifactPath w)))
             = restores (trace w)
         \<and> trace (snd (restoreArtifactBundle c e bundle artifactPath w)) = trace w
         \<and> files (snd (restoreArtifactBundle c e bundle artifactPath w)) = files w"
  using assms by (simp add: restoreArtifactBundle_def Let_def debug_def)

theorem restoreArtifactBundle_no_metafile_witness:
  "\<not> existsSync (files ex_world) (getBundleMetaFile ex_cache ex_env ''wrapper-dists'')
   \<and> fst (restoreArtifactBundle ex_cache ex_env ''wrapper-dists'' ex_pattern ex_world) = Inr ()
   \<and> restores (trace (snd (restoreArtifactBundle ex_cache ex_env ''wrapper-dists'' ex_pattern
                              ex_world))) = []
   \<and> messages (snd (restoreArtifactBundle ex_cache ex_env ''wrapper-dists'' ex_pattern ex_world))
       = [Debug (''No metafile found to restore wrapper-dists: '' @ ex_meta)]"
proof -
  have h: "\<not> existsSync (files ex_world) (getBundleMetaFile ex_cache ex_env ''wrapper-dists'')"
    unfolding ex_getBundleMetaFile using ex_paths_distinct by (simp add: existsSync_def ex_world_def)
  have "trace ex_world = []" "messages ex_world = []"
    by (simp_all add: ex_world_def)
  then show ?thesis
    using restoreArtifactBundle_no_metafile [OF h, of ex_pattern] h
    unfolding ex_getBundleMetaFile by (simp add: debug_def)
qed

subsection \<open>C7: where the meta-file is and what it holds\<close>




subsection \<open>C8: key derivation is deterministic\<close>

text \<open>
  C8. Two evaluations of \<open>createCacheKey\<close> with the same prefix, the same hash function,
  the same working directory and the same Gradle User Home, on the same bundle name and
  the same sequence of paths, give the same key, whatever else differs: the state of
  the file system, the log, the other collaborators, the debugging flag.
\<close>

theorem createCacheKey_deterministic:
  assumes "cacheKeyPrefix e = cacheKeyPrefix e'"
    and "hashFileNames e = hashFileNames e'"
    and "cwd e = cwd e'"
    and "gradleUserHome c = gradleUserHome c'"
  shows "fst (createCacheKey c e bundle fls w) = fst (createCacheKey c' e' bundle fls w')"
  using assms by (simp add: createCacheKey_def Let_def)

theorem createCacheKey_deterministic_witness:
  "cacheKeyPrefix ex_env = cacheKeyPrefix cx_env
   \<and> hashFileNames ex_env = hashFileNames cx_env
   \<and> cwd ex_env = cwd cx_env
   \<and> gradleUserHome ex_cache = gradleUserHome (ex_cache\<lparr>cacheDebuggingEnabled := False\<rparr>)
   \<and> fst (createCacheKey ex_cache ex_env ''wrapper-dists'' [ex_zip, ex_ok] ex_world) = ex_key
   \<and> fst (createCacheKey (ex_cache\<lparr>cacheDebuggingEnabled := False\<rparr>) cx_env ''wrapper-dists''
            [ex_zip, ex_ok] ex_cached) = ex_key"
proof -
  have 1: "cacheKeyPrefix ex_env = cacheKeyPrefix cx_env"
    and 2: "hashFileNames ex_env = hashFileNames cx_env"
    and 3: "cwd ex_env = cwd cx_env"
    and 4: "gradleUserHome ex_cache = gradleUserHome (ex_cache\<lparr>cacheDebuggingEnabled := False\<rparr>)"
    by (simp_all add: cx_env_def)
  show ?thesis
    using createCacheKey_deterministic [OF 1 2 3 4, of "''wrapper-dists''" "[ex_zip, ex_ok]"
        ex_world ex_cached] 1 2 3 4
    by (simp add: ex_createCacheKey)
qed

subsection \<open>C9: restore and save are guarded per run\<close>

text \<open>
  C9. \<open>restore\<close> returns at once when the cache-restored variable is already set: all
  it does is log one line; so after a restore that restored and returned, a restore of
  any later step restores nothing. \<open>save\<close> likewise logs one line and returns unless
  the cache-restored state is recorded. And in a step that starts with no saved state, a \<open>save\<close> that saves
  implies that the step's \<open>restore\<close> ran its restore and returned normally.
\<close>

theorem restore_save_lifecycle:
  "(truthy (environment j CACHE_RESTORED_VAR)
     \<longrightarrow> restore k home j =
          (Inr (), did (CoreInfo (if isCacheDisabled k
             then ''Cache is disabled: will not restore state from previous builds.''
             else ''Cache only restored on first action step.'')) j))
   \<and> (fst (restore k home j0) = Inr ()
      \<and> stateRestores (effects (snd (restore k home j0))) \<noteq> stateRestores (effects j0)
     \<longrightarrow> stateRestores (effects (snd (restore k' home' (snd (restore k home j0)\<lparr>state := st\<rparr>))))
          = stateRestores (effects (snd (restore k home j0))))
   \<and> (\<not> truthy (Some (getState i CACHE_RESTORED_VAR))
     \<longrightarrow> save k i =
          (Inr (), did (CoreInfo (if isCacheDisabled k
             then ''Cache is disabled: will not save state for later builds.''
             else ''Cache will only be saved in final post-action step.'')) i))
   \<and> (state j0 = Map.empty
      \<and> state j1 = state (snd (restore k home j0))
      \<and> stateSaves (effects (snd (save k' j1))) \<noteq> stateSaves (effects j1)
     \<longrightarrow> fst (restore k home j0) = Inr ()
       \<and> stateRestores (effects (snd (restore k home j0)))
           = stateRestores (effects j0) @ [home])"
proof (intro conjI impI)
  assume "truthy (environment j CACHE_RESTORED_VAR)"
  then show "restore k home j =
          (Inr (), did (CoreInfo (if isCacheDisabled k
             then ''Cache is disabled: will not restore state from previous builds.''
             else ''Cache only restored on first action step.'')) j)"
    by (rule restore_noop)
next
  assume "fst (restore k home j0) = Inr ()
      \<and> stateRestores (effects (snd (restore k home j0))) \<noteq> stateRestores (effects j0)"
  then have "truthy (environment (snd (restore k home j0)) CACHE_RESTORED_VAR)"
    by (simp add: restore_then_noop)
  then have "truthy (environment (snd (restore k home j0)\<lparr>state := st\<rparr>) CACHE_RESTORED_VAR)"
    by simp
  from restore_noop [OF this]
  show "stateRestores (effects (snd (restore k' home' (snd (restore k home j0)\<lparr>state := st\<rparr>))))
          = stateRestores (effects (snd (restore k home j0)))"
    by (simp add: did_def stateRestores_append)
next
  assume "\<not> truthy (Some (getState i CACHE_RESTORED_VAR))"
  then show "save k i =
          (Inr (), did (CoreInfo (if isCacheDisabled k
             then ''Cache is disabled: will not save state for later builds.''
             else ''Cache will only be saved in final post-action step.'')) i)"
    by (rule save_noop)
next
  assume a: "state j0 = Map.empty
      \<and> state j1 = state (snd (restore k home j0))
      \<and> stateSaves (effects (snd (save k' j1))) \<noteq> stateSaves (effects j1)"
  then have "truthy (Some (getState j1 CACHE_RESTORED_VAR))"
    using save_executes [where k = k' and j = j1] by simp
  moreover have "j1 = j1\<lparr>state := state (snd (restore k home j0))\<rparr>"
    using a by simp
  ultimately have "truthy (Some (getState (j1\<lparr>state := state (snd (restore k home j0))\<rparr>)
                                   CACHE_RESTORED_VAR))"
    by simp
  with a have r: "fst (restore k home j0) = Inr ()
    \<and> stateRestores (effects (snd (restore k home j0))) = stateRestores (effects j0) @ [home]"
    using restore_recorded [where j = j0 and j' = j1 and k = k and home = home] by simp
  show "fst (restore k home j0) = Inr ()"
    and "stateRestores (effects (snd (restore k home j0))) = stateRestores (effects j0) @ [home]"
    using r by simp_all
qed

text \<open>The job as a second step finds it: the variable is exported, its own state is empty.\<close>

theorem restore_save_lifecycle_witness:
  "truthy (environment (snd (restore ex_collaborators ''/home/u/.gradle'' ex_job)
                         \<lparr>state := Map.empty\<rparr>) CACHE_RESTORED_VAR)
   \<and> restore ex_collaborators ''/home/u/.gradle''
        (snd (restore ex_collaborators ''/home/u/.gradle'' ex_job)\<lparr>state := Map.empty\<rparr>)
       = (Inr (), did (CoreInfo ''Cache only restored on first action step.'')
                    (snd (restore ex_collaborators ''/home/u/.gradle'' ex_job)
                       \<lparr>state := Map.empty\<rparr>))
   \<and> fst (restore ex_collaborators ''/home/u/.gradle'' ex_job) = Inr ()
   \<and> stateRestores (effects ex_job) = []
   \<and> stateRestores (effects (snd (restore ex_collaborators ''/home/u/.gradle'' ex_job)))
       = [''/home/u/.gradle'']
   \<and> stateRestores (effects (snd (restore ex_collaborators ''/home/u/.gradle''
        (snd (restore ex_collaborators ''/home/u/.gradle'' ex_job)\<lparr>state := Map.empty\<rparr>))))
       = [''/home/u/.gradle'']
   \<and> \<not> truthy (Some (getState ex_job CACHE_RESTORED_VAR))
   \<and> save ex_collaborators ex_job
       = (Inr (), did (CoreInfo ''Cache will only be saved in final post-action step.'') ex_job)
   \<and> state ex_job = Map.empty
   \<and> stateSaves (effects (snd (restore ex_collaborators ''/home/u/.gradle'' ex_job))) = []
   \<and> stateSaves (effects (snd (save ex_collaborators
                                  (snd (restore ex_collaborators ''/home/u/.gradle'' ex_job)))))
       = [(''/home/u/.gradle'', ''{}'')]"
proof -
  have r: "restore ex_collaborators ''/home/u/.gradle'' ex_job =
      (Inr (),
       \<lparr>environment = [CACHE_RESTORED_VAR \<mapsto> ''true''],
        state = [GRADLE_USER_HOME \<mapsto> ''/home/u/.gradle'', CACHE_LISTENER \<mapsto> ''{}'',
                 CACHE_RESTORED_VAR \<mapsto> ''true''],
        effects = [StartGroup ''Restore Gradle state from cache'',
                   GradleStateRestore ''/home/u/.gradle'', EndGroup]\<rparr>)"
    by (simp add: restore_cases ex_collaborators_def ex_job_def truthy_def)
  have s: "stateSaves (effects (snd (save ex_collaborators
                                  (snd (restore ex_collaborators ''/home/u/.gradle'' ex_job)))))
       = [(''/home/u/.gradle'', ''{}'')]"
    unfolding r using var_names_distinct
    by (simp add: save_def shouldSaveCaches_def ex_collaborators_def getState_def truthy_def
        Let_def did_def)
  have 1: "truthy (environment (snd (restore ex_collaborators ''/home/u/.gradle'' ex_job)
                         \<lparr>state := Map.empty\<rparr>) CACHE_RESTORED_VAR)"
    by (simp add: r truthy_def)
  have 2: "\<not> truthy (Some (getState ex_job CACHE_RESTORED_VAR))"
    and 3: "state ex_job = Map.empty"
    and 4: "stateRestores (effects ex_job) = []"
    by (simp_all add: ex_job_def truthy_def getState_def)
  have 5: "fst (restore ex_collaborators ''/home/u/.gradle'' ex_job) = Inr ()"
    and 6: "stateRestores (effects (snd (restore ex_collaborators ''/home/u/.gradle'' ex_job)))
       = [''/home/u/.gradle'']"
    and 7: "stateSaves (effects (snd (restore ex_collaborators ''/home/u/.gradle'' ex_job))) = []"
    by (simp_all add: r)
  have 8: "\<not> isCacheDisabled ex_collaborators"
    by (simp add: ex_collaborators_def)
  note t = restore_save_lifecycle
    [where j = "snd (restore ex_collaborators ''/home/u/.gradle'' ex_job)\<lparr>state := Map.empty\<rparr>"
       and k = ex_collaborators and home = "''/home/u/.gradle''" and ?j0.0 = ex_job
       and k' = ex_collaborators and home' = "''/home/u/.gradle''" and st = Map.empty
       and i = ex_job
       and ?j1.0 = "snd (restore ex_collaborators ''/home/u/.gradle'' ex_job)"]
  show ?thesis
    using t 1 2 3 4 5 6 7 8 s by (simp add: did_def stateRestores_append)
qed

subsection \<open>C10: the meta-file round trip\<close>



end
